theory Spec2Isabelle
  imports Complex_Main "HOL-Library.Multiset" "HOL-Library.Log_Nat"
begin

section \<open>Python values, exceptions and dictionaries\<close>

text \<open>
  \<^verbatim>\<open>class CheckStatus(Enum)\<close> and \<^verbatim>\<open>class Severity(Enum)\<close> of
  \<^verbatim>\<open>src/checks/base_check.py\<close>; the \<^verbatim>\<open>.value\<close> attribute of a member is
  the string the class body assigns to it.
\<close>

datatype CheckStatus = PASS | FAIL | WARNING | ERROR | NOT_APPLICABLE

fun CheckStatus_value :: "CheckStatus \<Rightarrow> string" where
  "CheckStatus_value PASS = ''PASS''"
| "CheckStatus_value FAIL = ''FAIL''"
| "CheckStatus_value WARNING = ''WARNING''"
| "CheckStatus_value ERROR = ''ERROR''"
| "CheckStatus_value NOT_APPLICABLE = ''NOT_APPLICABLE''"

datatype Severity = CRITICAL | HIGH | MEDIUM | LOW | INFO

fun Severity_value :: "Severity \<Rightarrow> string" where
  "Severity_value CRITICAL = ''CRITICAL''"
| "Severity_value HIGH = ''HIGH''"
| "Severity_value MEDIUM = ''MEDIUM''"
| "Severity_value LOW = ''LOW''"
| "Severity_value INFO = ''INFO''"

text \<open>
  The values that travel through the dictionaries of the program: \<^verbatim>\<open>None\<close>,
  booleans, integers, strings, members of \<^verbatim>\<open>CheckStatus\<close>, lists and
  dictionaries. A dictionary is an association list in insertion order; a dictionary
  display of the source becomes the list of its items in the order written. Strings
  are lists of 8-bit characters.
\<close>

datatype pyval =
    PNone
  | PBool bool
  | PInt int
  | PStr string
  | PStatus CheckStatus
  | PList "pyval list"
  | PDict "(string \<times> pyval) list"

type_synonym pydict = "(string \<times> pyval) list"

text \<open>
  Exceptions carry their class and the text \<^verbatim>\<open>str(e)\<close> gives. Of the classes
  below, \<^verbatim>\<open>KeyboardInterrupt\<close> and \<^verbatim>\<open>SystemExit\<close> derive from
  \<^verbatim>\<open>BaseException\<close> only; every other one derives from \<^verbatim>\<open>Exception\<close>,
  which is what a handler \<^verbatim>\<open>except Exception\<close> matches.
\<close>

datatype exc_class =
    TimeoutExpired
  | PermissionError
  | FileNotFoundError
  | OSError
  | ValueError
  | AttributeError
  | KeyError
  | TypeError
  | RuntimeError
  | KeyboardInterrupt
  | SystemExit

datatype exn = Exn (exc_cls: exc_class) (exc_str: string)

fun isinstance_Exception :: "exn \<Rightarrow> bool" where
  "isinstance_Exception (Exn KeyboardInterrupt _) = False"
| "isinstance_Exception (Exn SystemExit _) = False"
| "isinstance_Exception (Exn _ _) = True"

text \<open>
  \<^verbatim>\<open>d.get(k, default)\<close>, \<^verbatim>\<open>d[k]\<close> and \<^verbatim>\<open>k in d\<close> on a dictionary. The
  text of the \<^verbatim>\<open>KeyError\<close> that \<^verbatim>\<open>d[k]\<close> raises is \<^verbatim>\<open>repr(k)\<close>: the key
  between single quotes, for the keys of this program (letters and underscores).
\<close>

definition dict_get :: "pydict \<Rightarrow> string \<Rightarrow> pyval \<Rightarrow> pyval" where
  "dict_get d k dflt = (case map_of d k of None \<Rightarrow> dflt | Some v \<Rightarrow> v)"

definition dict_item :: "pydict \<Rightarrow> string \<Rightarrow> exn + pyval" where
  "dict_item d k =
     (case map_of d k of
        None \<Rightarrow> Inl (Exn KeyError ([CHR 0x27] @ k @ [CHR 0x27]))
      | Some v \<Rightarrow> Inr v)"

definition has_key :: "pydict \<Rightarrow> string \<Rightarrow> bool" where
  "has_key d k = (map_of d k \<noteq> None)"

text \<open>
  Attribute access on a value. Only a dictionary has a method \<^verbatim>\<open>get\<close> and only an
  enum member has an attribute \<^verbatim>\<open>value\<close>; on every other value the access raises
  \<^verbatim>\<open>AttributeError\<close>, whose text names the type of the value and the attribute.
\<close>

fun type_name :: "pyval \<Rightarrow> string" where
  "type_name PNone = ''NoneType''"
| "type_name (PBool _) = ''bool''"
| "type_name (PInt _) = ''int''"
| "type_name (PStr _) = ''str''"
| "type_name (PStatus _) = ''CheckStatus''"
| "type_name (PList _) = ''list''"
| "type_name (PDict _) = ''dict''"

definition no_attribute :: "pyval \<Rightarrow> string \<Rightarrow> exn" where
  "no_attribute v a =
     Exn AttributeError
       ([CHR 0x27] @ type_name v @ [CHR 0x27] @ '' object has no attribute ''
          @ [CHR 0x27] @ a @ [CHR 0x27])"

fun attr_get :: "pyval \<Rightarrow> exn + pydict" where
  "attr_get (PDict d) = Inr d"
| "attr_get v = Inl (no_attribute v ''get'')"

fun attr_value :: "pyval \<Rightarrow> exn + string" where
  "attr_value (PStatus s) = Inr (CheckStatus_value s)"
| "attr_value v = Inl (no_attribute v ''value'')"

section \<open>The probe and its execution wrapper\<close>

text \<open>
  The attributes \<^verbatim>\<open>BaseCheck.__init__\<close> declares. The attribute \<^verbatim>\<open>id\<close> is
  named \<open>id_attr\<close> here.
\<close>

record BaseCheck =
  id_attr :: string
  title :: string
  description :: string
  category :: string
  severity :: Severity
  compliance_frameworks :: "string list"
  remediation :: string

text \<open>
  What one call of the abstract method \<^verbatim>\<open>check()\<close> does: it returns a value or
  raises.
\<close>

datatype check_outcome = Returns pyval | Raises exn

text \<open>
  The body of the \<^verbatim>\<open>try\<close> block of \<^verbatim>\<open>BaseCheck.run\<close>. The items of the
  dictionary display are evaluated in the order written, so the only expression that
  can raise after \<^verbatim>\<open>self.check()\<close> is
  \<^verbatim>\<open>result.get('status', CheckStatus.ERROR).value\<close>; \<open>run_result\<close> is the
  display with that text in place. The argument \<open>now\<close> is the text
  \<^verbatim>\<open>datetime.now().isoformat()\<close> returns.
\<close>

definition run_result :: "BaseCheck \<Rightarrow> pydict \<Rightarrow> string \<Rightarrow> string \<Rightarrow> pydict" where
  "run_result self d status_value now =
     [(''id'', PStr (id_attr self)),
      (''title'', PStr (title self)),
      (''description'', PStr (description self)),
      (''category'', PStr (category self)),
      (''severity'', PStr (Severity_value (severity self))),
      (''compliance_frameworks'', PList (map PStr (compliance_frameworks self))),
      (''status'', PStr status_value),
      (''finding'', dict_get d ''finding'' (PStr ''No finding recorded'')),
      (''evidence'', dict_get d ''evidence'' PNone),
      (''risk'', dict_get d ''risk'' (PStr '''')),
      (''remediation'', dict_get d ''remediation'' (PStr (remediation self))),
      (''timestamp'', PStr now),
      (''error'', PNone)]"

definition run_try :: "BaseCheck \<Rightarrow> check_outcome \<Rightarrow> string \<Rightarrow> exn + pydict" where
  "run_try self outcome now =
     (case outcome of
        Raises e \<Rightarrow> Inl e
      | Returns result \<Rightarrow>
          (case attr_get result of
             Inl e \<Rightarrow> Inl e
           | Inr d \<Rightarrow>
               (case attr_value (dict_get d ''status'' (PStatus ERROR)) of
                  Inl e \<Rightarrow> Inl e
                | Inr status_value \<Rightarrow> Inr (run_result self d status_value now))))"

text \<open>The dictionary the handler \<^verbatim>\<open>except Exception as e\<close> returns.\<close>

definition run_except :: "BaseCheck \<Rightarrow> exn \<Rightarrow> string \<Rightarrow> pydict" where
  "run_except self e now =
     [(''id'', PStr (id_attr self)),
      (''title'', PStr (title self)),
      (''description'', PStr (description self)),
      (''category'', PStr (category self)),
      (''severity'', PStr (Severity_value (severity self))),
      (''status'', PStr (CheckStatus_value ERROR)),
      (''finding'', PStr ''Check execution failed''),
      (''evidence'', PNone),
      (''risk'', PStr ''''),
      (''remediation'', PStr ''''),
      (''timestamp'', PStr now),
      (''error'', PStr (exc_str e))]"

text \<open>
  \<^verbatim>\<open>BaseCheck.run\<close>: \<open>Inr\<close> is the dictionary returned, \<open>Inl\<close> an exception
  that leaves \<^verbatim>\<open>run\<close>. The handler matches instances of \<^verbatim>\<open>Exception\<close>; any
  other exception propagates.
\<close>

definition run :: "BaseCheck \<Rightarrow> check_outcome \<Rightarrow> string \<Rightarrow> exn + pydict" where
  "run self outcome now =
     (case run_try self outcome now of
        Inr result \<Rightarrow> Inr result
      | Inl e \<Rightarrow> if isinstance_Exception e then Inr (run_except self e now) else Inl e)"

section \<open>String operations the probes use\<close>










section \<open>The shipped probes\<close>



text \<open>
  Texts of the source that hold characters outside ASCII are written as the bytes of
  their UTF-8 encoding; \<open>rarrow\<close> is the arrow U+2192 of the remediation texts.
\<close>

definition rarrow :: string where
  "rarrow = [CHR 0xE2, CHR 0x86, CHR 0x92]"

subsection \<open>\<^verbatim>\<open>FirewallCheck\<close> of \<^verbatim>\<open>src/checks/network/firewall_check.py\<close>\<close>

definition FirewallCheck_init :: BaseCheck where
  "FirewallCheck_init =
     \<lparr>id_attr = ''CIS-2.1.1'',
      title = ''Ensure Firewall Is Enabled'',
      description =
        ''The macOS Application Firewall provides protection against network-based attacks'',
      category = ''Network Security'',
      severity = HIGH,
      compliance_frameworks = [''CIS_macOS_14'', ''NIST_CSF_PR.AC-5'', ''ISO27001_A.13.1.1''],
      remediation =
        ''\<newline>To enable the firewall:\<newline>1. Open System Settings '' @ rarrow
          @ '' Network '' @ rarrow @ '' Firewall\<newline>2. Toggle Firewall to ON\<newline>''
          @ ''3. Click Options to configure firewall settings\<newline>''
          @ ''4. Or run: sudo /usr/libexec/ApplicationFirewall/socketfilterfw --setglobalstate on\<newline>''\<rparr>"



subsection \<open>\<^verbatim>\<open>SSHConfigCheck\<close> of \<^verbatim>\<open>src/checks/network/ssh_config_check.py\<close>\<close>

definition SSHConfigCheck_init :: BaseCheck where
  "SSHConfigCheck_init =
     \<lparr>id_attr = ''CIS-4.2'',
      title = ''Ensure SSH Server Is Configured Securely'',
      description =
        ''SSH should be disabled if not needed, or configured securely if required'',
      category = ''Network Security'',
      severity = HIGH,
      compliance_frameworks = [''CIS_macOS_14'', ''NIST_CSF_PR.AC-4'', ''ISO27001_A.13.1.1''],
      remediation =
        ''\<newline>To secure or disable SSH:\<newline>1. If SSH not needed: System Settings ''
          @ rarrow @ '' General '' @ rarrow @ '' Sharing '' @ rarrow
          @ '' Remote Login OFF\<newline>''
          @ ''2. If SSH needed, configure /etc/ssh/sshd_config:\<newline>''
          @ ''   - PermitRootLogin no\<newline>''
          @ ''   - PasswordAuthentication no (use keys only)\<newline>''
          @ ''   - PermitEmptyPasswords no\<newline>''
          @ ''   - Protocol 2\<newline>''
          @ ''3. Restart SSH: sudo launchctl unload -w /System/Library/LaunchDaemons/ssh.plist\<newline>''\<rparr>"



subsection \<open>\<^verbatim>\<open>SoftwareUpdatesCheck\<close> of \<^verbatim>\<open>src/checks/system/software_updates.py\<close>\<close>

definition SoftwareUpdatesCheck_init :: BaseCheck where
  "SoftwareUpdatesCheck_init =
     \<lparr>id_attr = ''CIS-1.1'',
      title = ''Ensure All Apple-Provided Software Is Current'',
      description =
        ''Software updates often contain security patches for vulnerabilities'',
      category = ''System Updates'',
      severity = HIGH,
      compliance_frameworks = [''CIS_macOS_14'', ''NIST_CSF_PR.IP-12'', ''ISO27001_A.12.6.1''],
      remediation =
        ''\<newline>To install updates:\<newline>1. Open System Settings '' @ rarrow
          @ '' General '' @ rarrow @ '' Software Update\<newline>''
          @ ''2. Install all available updates\<newline>''
          @ ''3. Or run: sudo softwareupdate -ia --restart\<newline>''
          @ ''4. Enable automatic updates for security patches\<newline>''\<rparr>"





section \<open>The scan loop\<close>

text \<open>
  The loop of \<^verbatim>\<open>run_all_checks\<close> in \<^verbatim>\<open>dashboard.py\<close> and of \<^verbatim>\<open>main\<close> in
  \<^verbatim>\<open>test_all_checks.py\<close>: \<^verbatim>\<open>result = check.run()\<close> and
  \<^verbatim>\<open>results.append(result)\<close> for each element of the list \<^verbatim>\<open>checks\<close>, in
  order. An element of \<open>checks\<close> is a probe together with what its
  \<^verbatim>\<open>check()\<close> does when the loop reaches it and the text of the clock then. The
  progress display of the two loops takes no part in the results. An exception that
  leaves \<^verbatim>\<open>run()\<close> leaves the loop.
\<close>

type_synonym probe_call = "BaseCheck \<times> check_outcome \<times> string"

fun run_checks_loop :: "probe_call list \<Rightarrow> pydict list \<Rightarrow> exn + pydict list" where
  "run_checks_loop [] results = Inr results"
| "run_checks_loop ((chk, outcome, now) # rest) results =
     (case run chk outcome now of
        Inl e \<Rightarrow> Inl e
      | Inr result \<Rightarrow> run_checks_loop rest (results @ [result]))"

definition run_all_checks :: "probe_call list \<Rightarrow> exn + pydict list" where
  "run_all_checks checks = run_checks_loop checks []"

section \<open>Statistics\<close>

text \<open>
  A Python number is an \<^verbatim>\<open>int\<close> or a \<^verbatim>\<open>float\<close>; a float is given by the
  rational number that is its exact value. \<open>round_binary64 x\<close> is the binary64 number
  nearest to \<open>x\<close>, ties to even, for \<open>x\<close> in the range of normal numbers:
  \<open>ilog2 x\<close> is the exponent of the leading bit of \<open>x > 0\<close>, and the significand
  keeps 53 bits.
\<close>

datatype pynum = PyInt int | PyFloat rat

definition ilog2 :: "rat \<Rightarrow> int" where
  "ilog2 x =
     (if 1 \<le> x then int (floorlog 2 (nat \<lfloor>x\<rfloor>)) - 1
      else - int (floorlog 2 (nat (\<lceil>1 / x\<rceil> - 1))))"

definition pow2 :: "int \<Rightarrow> rat" where
  "pow2 e = (if 0 \<le> e then 2 ^ nat e else 1 / 2 ^ nat (- e))"

definition round_half_even :: "rat \<Rightarrow> int" where
  "round_half_even y =
     (let f = \<lfloor>y\<rfloor>; d = y - of_int f in
      if d < 1 / 2 then f
      else if 1 / 2 < d then f + 1
      else if even f then f else f + 1)"

definition round_binary64 :: "rat \<Rightarrow> rat" where
  "round_binary64 x =
     (if x = 0 then 0
      else (let e = ilog2 \<bar>x\<bar> - 52 in
            sgn x * of_int (round_half_even (\<bar>x\<bar> / pow2 e)) * pow2 e))"

text \<open>
  The operations of \<^verbatim>\<open>calculate_stats\<close> on numbers. \<^verbatim>\<open>passed / total\<close> is the
  true division of two integers, correctly rounded; \<^verbatim>\<open>* 100\<close> is the product of a
  float and the float \<^verbatim>\<open>100.0\<close>, rounded; \<^verbatim>\<open>round(x, 1)\<close> gives an integer back
  unchanged and, for a float, the float nearest to the decimal number with one digit
  after the point that is nearest to \<open>x\<close>, ties to even.
\<close>

definition int_truediv :: "nat \<Rightarrow> nat \<Rightarrow> rat" where
  "int_truediv a b = round_binary64 (of_nat a / of_nat b)"

definition float_mul :: "rat \<Rightarrow> rat \<Rightarrow> rat" where
  "float_mul x y = round_binary64 (x * y)"

fun py_round1 :: "pynum \<Rightarrow> pynum" where
  "py_round1 (PyInt n) = PyInt n"
| "py_round1 (PyFloat x) = PyFloat (round_binary64 (of_int (round_half_even (x * 10)) / 10))"

text \<open>
  \<^verbatim>\<open>sum(1 for r in results if r['status'] == s)\<close>: the running sum over the list,
  from the left; a result without the key \<^verbatim>\<open>status\<close> raises \<^verbatim>\<open>KeyError\<close>.
\<close>

fun sum_status :: "string \<Rightarrow> pydict list \<Rightarrow> nat \<Rightarrow> exn + nat" where
  "sum_status s [] acc = Inr acc"
| "sum_status s (r # rs) acc =
     (case dict_item r ''status'' of
        Inl e \<Rightarrow> Inl e
      | Inr v \<Rightarrow> sum_status s rs (if v = PStr s then acc + 1 else acc))"

record stats =
  total :: nat
  passed :: nat
  failed :: nat
  warnings :: nat
  compliance_score :: pynum

text \<open>\<^verbatim>\<open>calculate_stats\<close> of \<^verbatim>\<open>dashboard.py\<close>.\<close>

definition calculate_stats :: "pydict list \<Rightarrow> exn + stats" where
  "calculate_stats results =
     (let total_n = length results in
      case sum_status ''PASS'' results 0 of
        Inl e \<Rightarrow> Inl e
      | Inr passed_n \<Rightarrow>
          (case sum_status ''FAIL'' results 0 of
             Inl e \<Rightarrow> Inl e
           | Inr failed_n \<Rightarrow>
               (case sum_status ''WARNING'' results 0 of
                  Inl e \<Rightarrow> Inl e
                | Inr warnings_n \<Rightarrow>
                    (let score =
                       (if total_n > 0
                        then PyFloat (float_mul (int_truediv passed_n total_n) 100)
                        else PyInt 0)
                     in Inr \<lparr>total = total_n, passed = passed_n, failed = failed_n,
                              warnings = warnings_n,
                              compliance_score = py_round1 score\<rparr>))))"

section \<open>Grouping by category\<close>

text \<open>
  The dictionary \<^verbatim>\<open>categories\<close> of \<^verbatim>\<open>main\<close> in \<^verbatim>\<open>dashboard.py\<close>, in
  insertion order. A key must be hashable, which lists and dictionaries are not; two
  keys are the same key when they are equal as Python values, which for the hashable
  values here is equality but for \<^verbatim>\<open>True == 1\<close> and \<^verbatim>\<open>False == 0\<close>.
\<close>

type_synonym groups = "(pyval \<times> pydict list) list"

fun hashable :: "pyval \<Rightarrow> bool" where
  "hashable (PList _) = False"
| "hashable (PDict _) = False"
| "hashable _ = True"

fun key_eq :: "pyval \<Rightarrow> pyval \<Rightarrow> bool" where
  "key_eq (PBool b) (PInt i) = (i = (if b then 1 else 0))"
| "key_eq (PInt i) (PBool b) = (i = (if b then 1 else 0))"
| "key_eq k k' = (k = k')"

definition key_in :: "pyval \<Rightarrow> groups \<Rightarrow> bool" where
  "key_in k categories = list_ex (\<lambda>(k', g). key_eq k' k) categories"

text \<open>\<^verbatim>\<open>categories[cat].append(result)\<close> for a key the dictionary holds.\<close>

fun append_to :: "pyval \<Rightarrow> pydict \<Rightarrow> groups \<Rightarrow> groups" where
  "append_to k r [] = []"
| "append_to k r ((k', g) # categories) =
     (if key_eq k' k then (k', g @ [r]) # categories
      else (k', g) # append_to k r categories)"

text \<open>The loop over \<^verbatim>\<open>results\<close> that fills \<^verbatim>\<open>categories\<close>.\<close>

fun group_loop :: "pydict list \<Rightarrow> groups \<Rightarrow> exn + groups" where
  "group_loop [] categories = Inr categories"
| "group_loop (result # rest) categories =
     (case dict_item result ''category'' of
        Inl e \<Rightarrow> Inl e
      | Inr cat \<Rightarrow>
          if \<not> hashable cat then
            Inl (Exn TypeError (''unhashable type: '' @ [CHR 0x27] @ type_name cat @ [CHR 0x27]))
          else
            group_loop rest
              (append_to cat result
                 (if \<not> key_in cat categories then categories @ [(cat, [])] else categories)))"

definition group_by_category :: "pydict list \<Rightarrow> exn + groups" where
  "group_by_category results = group_loop results []"

section \<open>Well-typed outcomes and the keys of a result\<close>

text \<open>
  The docstring of \<^verbatim>\<open>check()\<close> gives the entry \<^verbatim>\<open>'status'\<close> the type
  \<^verbatim>\<open>CheckStatus\<close>. \<open>outcome_status d\<close> is the status a returned dictionary
  \<open>d\<close> of that type stands for: its entry, or \<^verbatim>\<open>CheckStatus.ERROR\<close> when
  it has none; it is \<open>None\<close> when the entry is not a \<^verbatim>\<open>CheckStatus\<close>.
\<close>

definition outcome_status :: "pydict \<Rightarrow> CheckStatus option" where
  "outcome_status d =
     (case map_of d ''status'' of
        None \<Rightarrow> Some ERROR
      | Some (PStatus s) \<Rightarrow> Some s
      | Some _ \<Rightarrow> None)"


fun returned_fault :: "pyval \<Rightarrow> exn" where
  "returned_fault (PDict d) = no_attribute (dict_get d ''status'' (PStatus ERROR)) ''value''"
| "returned_fault v = no_attribute v ''get''"

text \<open>The keys both dictionary displays of \<^verbatim>\<open>BaseCheck.run\<close> hold.\<close>

definition shared_keys :: "string list" where
  "shared_keys =
     [''id'', ''title'', ''description'', ''category'', ''severity'', ''status'',
      ''finding'', ''evidence'', ''risk'', ''remediation'', ''timestamp'', ''error'']"

text \<open>
  The outcomes of \<^verbatim>\<open>check()\<close> the handler of \<^verbatim>\<open>BaseCheck.run\<close> covers: a
  return of any value, and a raise of an instance of \<^verbatim>\<open>Exception\<close>.
\<close>

fun handled :: "check_outcome \<Rightarrow> bool" where
  "handled (Returns v) = True"
| "handled (Raises e) = isinstance_Exception e"

section \<open>Well-formed results\<close>

text \<open>
  The status of a result, when the entry \<^verbatim>\<open>status\<close> of the dictionary is the
  value of a member of \<^verbatim>\<open>CheckStatus\<close>, as it is in every dictionary
  \<^verbatim>\<open>BaseCheck.run\<close> returns; \<open>count_of s results\<close> is the number of results
  with status \<open>s\<close>.
\<close>

definition result_status :: "pydict \<Rightarrow> CheckStatus option" where
  "result_status r =
     (case map_of r ''status'' of
        Some (PStr t) \<Rightarrow>
          (if t = ''PASS'' then Some PASS
           else if t = ''FAIL'' then Some FAIL
           else if t = ''WARNING'' then Some WARNING
           else if t = ''ERROR'' then Some ERROR
           else if t = ''NOT_APPLICABLE'' then Some NOT_APPLICABLE
           else None)
      | _ \<Rightarrow> None)"

definition count_of :: "CheckStatus \<Rightarrow> pydict list \<Rightarrow> nat" where
  "count_of s results = length (filter (\<lambda>r. result_status r = Some s) results)"

text \<open>
  Three results, reduced to the entries the statistics and the grouping read: one
  passed, one failed, one in error.
\<close>

definition three_results :: "pydict list" where
  "three_results =
     [[(''category'', PStr ''System Updates''), (''status'', PStr ''PASS'')],
      [(''category'', PStr ''Network Security''), (''status'', PStr ''FAIL'')],
      [(''category'', PStr ''Network Security''), (''status'', PStr ''ERROR'')]]"

text \<open>
  A scan of three probes: the first passes, the second fails, the \<^verbatim>\<open>check()\<close> of
  the third raises.
\<close>

definition scan_calls :: "probe_call list" where
  "scan_calls =
     [(SoftwareUpdatesCheck_init,
       Returns (PDict [(''status'', PStatus PASS), (''risk'', PStr ''None'')]),
       ''2026-01-05T10:00:00''),
      (FirewallCheck_init,
       Returns (PDict [(''status'', PStatus FAIL), (''finding'', PStr ''Firewall is DISABLED'')]),
       ''2026-01-05T10:00:01''),
      (SSHConfigCheck_init, Raises (Exn RuntimeError ''boom''), ''2026-01-05T10:00:02'')]"

text \<open>
  The category of a result, when the entry \<^verbatim>\<open>category\<close> of the dictionary is a
  string, as it is in every dictionary \<^verbatim>\<open>BaseCheck.run\<close> returns;
  \<open>in_category k r\<close> holds when \<open>k\<close> is the category of \<open>r\<close>.
\<close>

definition result_category :: "pydict \<Rightarrow> string option" where
  "result_category r = (case map_of r ''category'' of Some (PStr c) \<Rightarrow> Some c | _ \<Rightarrow> None)"

definition in_category :: "pyval \<Rightarrow> pydict \<Rightarrow> bool" where
  "in_category k r = (map_of r ''category'' = Some k)"

text \<open>
  The grouping as the specification words it: \<open>first_seen xs\<close> lists the elements
  of \<open>xs\<close> in the order of their first occurrence, and \<open>grouped results\<close> pairs
  each category, in that order, with the results of that category in their original
  order.
\<close>

fun first_seen :: "'a list \<Rightarrow> 'a list" where
  "first_seen [] = []"
| "first_seen (x # xs) = x # filter (\<lambda>y. y \<noteq> x) (first_seen xs)"

definition category_keys :: "pydict list \<Rightarrow> pyval list" where
  "category_keys results = first_seen (map (\<lambda>r. dict_get r ''category'' PNone) results)"

definition grouped :: "pydict list \<Rightarrow> groups" where
  "grouped results = map (\<lambda>k. (k, filter (in_category k) results)) (category_keys results)"

section \<open>Properties of the execution wrapper\<close>

lemma run_Raises:
  "run self (Raises e) now =
     (if isinstance_Exception e then Inr (run_except self e now) else Inl e)"
  by (simp add: run_def run_try_def)

lemma attr_value_dict_get:
  "outcome_status d = Some s \<Longrightarrow>
     attr_value (dict_get d ''status'' (PStatus ERROR)) = Inr (CheckStatus_value s)"
  by (auto simp: outcome_status_def dict_get_def split: option.splits pyval.splits)

lemma run_try_Returns_dict:
  "outcome_status d = Some s \<Longrightarrow>
     run_try self (Returns (PDict d)) now = Inr (run_result self d (CheckStatus_value s) now)"
  by (simp add: run_try_def attr_value_dict_get)

lemma run_try_Returns_Inl:
  "run_try self (Returns v) now = Inl e \<Longrightarrow> isinstance_Exception e"
  by (cases v)
     (auto simp: run_try_def no_attribute_def split: sum.splits
           elim!: attr_value.elims)

lemma attr_value_Inr:
  "attr_value v = Inr x \<Longrightarrow> \<exists>s. v = PStatus s \<and> x = CheckStatus_value s"
  by (cases v) auto

lemma dict_get_status_outcome:
  "dict_get d ''status'' (PStatus ERROR) = PStatus s \<Longrightarrow> outcome_status d = Some s"
  by (auto simp: outcome_status_def dict_get_def split: option.splits pyval.splits)

lemma run_try_Returns_Inr:
  assumes "run_try self (Returns v) now = Inr r"
  shows "\<exists>d s. v = PDict d \<and> outcome_status d = Some s \<and>
           r = run_result self d (CheckStatus_value s) now"
proof (cases v)
  case (PDict d)
  with assms obtain x where x: "attr_value (dict_get d ''status'' (PStatus ERROR)) = Inr x"
    and r: "r = run_result self d x now"
    by (auto simp: run_try_def split: sum.splits)
  from x obtain s where "dict_get d ''status'' (PStatus ERROR) = PStatus s"
    "x = CheckStatus_value s"
    by (auto dest: attr_value_Inr)
  then show ?thesis using PDict r by (auto dest: dict_get_status_outcome)
qed (use assms in \<open>auto simp: run_try_def\<close>)

text \<open>
  A dictionary \<^verbatim>\<open>run\<close> returns is the handler's, for an instance of
  \<^verbatim>\<open>Exception\<close> raised in the \<^verbatim>\<open>try\<close> block, or the one the block builds
  from a returned dictionary with a well-typed status.
\<close>

lemma run_Inr_cases:
  assumes "run self outcome now = Inr r"
  shows "(\<exists>e. isinstance_Exception e \<and> run_try self outcome now = Inl e \<and>
            r = run_except self e now) \<or>
         (\<exists>d s. outcome = Returns (PDict d) \<and> outcome_status d = Some s \<and>
            r = run_result self d (CheckStatus_value s) now)"
proof (cases "run_try self outcome now")
  case (Inl e)
  with assms show ?thesis by (auto simp: run_def split: if_splits)
next
  case (Inr r')
  with assms have "r' = r" by (simp add: run_def)
  show ?thesis
  proof (cases outcome)
    case (Returns v)
    with Inr \<open>r' = r\<close> show ?thesis by (auto dest: run_try_Returns_Inr)
  next
    case (Raises e)
    with Inr show ?thesis by (simp add: run_try_def)
  qed
qed

lemma run_Returns_dict:
  "outcome_status d = Some s \<Longrightarrow>
     run self (Returns (PDict d)) now = Inr (run_result self d (CheckStatus_value s) now)"
  by (simp add: run_def run_try_Returns_dict)

lemma has_keys_run_except: "list_all (has_key (run_except self e now)) shared_keys"
  by (simp add: shared_keys_def has_key_def run_except_def)

lemma has_keys_run_result: "list_all (has_key (run_result self d sv now)) shared_keys"
  by (simp add: shared_keys_def has_key_def run_result_def)

lemma distinct_run_except: "distinct (map fst (run_except self e now))"
  by (simp add: run_except_def)

lemma distinct_run_result: "distinct (map fst (run_result self d sv now))"
  by (simp add: run_result_def)

lemma run_handled:
  assumes "handled outcome"
  shows "\<exists>r. run self outcome now = Inr r"
proof (cases "run_try self outcome now")
  case (Inl e)
  have "isinstance_Exception e"
  proof (cases outcome)
    case (Returns v)
    with Inl show ?thesis by (auto dest: run_try_Returns_Inl)
  next
    case (Raises e')
    with Inl assms show ?thesis by (simp add: run_try_def)
  qed
  with Inl show ?thesis by (simp add: run_def)
qed (simp add: run_def)

text \<open>
  Claim C1, as amended. When \<^verbatim>\<open>check()\<close> returns (a dictionary or any other
  value) or raises an instance of \<^verbatim>\<open>Exception\<close>, \<^verbatim>\<open>run()\<close> does not raise:
  it returns one dictionary, whose keys are distinct and include \<^verbatim>\<open>id\<close>,
  \<^verbatim>\<open>title\<close>, \<^verbatim>\<open>description\<close>, \<^verbatim>\<open>category\<close>, \<^verbatim>\<open>severity\<close>,
  \<^verbatim>\<open>status\<close>, \<^verbatim>\<open>finding\<close>, \<^verbatim>\<open>evidence\<close>, \<^verbatim>\<open>risk\<close>,
  \<^verbatim>\<open>remediation\<close>, \<^verbatim>\<open>timestamp\<close> and \<^verbatim>\<open>error\<close>.
\<close>

theorem run_returns_one_result:
  assumes "handled outcome"
  shows "\<exists>r. run self outcome now = Inr r \<and> list_all (has_key r) shared_keys \<and>
           distinct (map fst r)"
proof -
  from assms obtain r where r: "run self outcome now = Inr r"
    using run_handled by blast
  from run_Inr_cases [OF r] have "list_all (has_key r) shared_keys \<and> distinct (map fst r)"
    by (auto simp: has_keys_run_except has_keys_run_result distinct_run_except
        distinct_run_result)
  with r show ?thesis by simp
qed

theorem run_returns_one_result_witness:
  "handled (Raises (Exn TimeoutExpired ''Command timed out'')) \<and>
   (\<exists>r. run FirewallCheck_init (Raises (Exn TimeoutExpired ''Command timed out''))
          ''2026-01-05T10:00:00'' = Inr r \<and>
        list_all (has_key r) shared_keys \<and> distinct (map fst r))"
  using run_returns_one_result
    [of "Raises (Exn TimeoutExpired ''Command timed out'')" FirewallCheck_init
        "''2026-01-05T10:00:00''"]
  by simp

text \<open>
  Claim C1 as stated fails: \<^verbatim>\<open>KeyboardInterrupt\<close> is an exception that is not an
  instance of \<^verbatim>\<open>Exception\<close>; when \<^verbatim>\<open>check()\<close> raises it, the handler of
  \<^verbatim>\<open>run()\<close> does not match and \<^verbatim>\<open>run()\<close> raises it too.
\<close>

theorem run_raises_KeyboardInterrupt:
  "run FirewallCheck_init (Raises (Exn KeyboardInterrupt [])) ''2026-01-05T10:00:00''
     = Inl (Exn KeyboardInterrupt [])"
  by (simp add: run_Raises)

text \<open>
  Claim C2. When \<^verbatim>\<open>check()\<close> raises \<open>e\<close>, every dictionary \<^verbatim>\<open>run()\<close>
  returns has status \<^verbatim>\<open>"ERROR"\<close>, finding \<^verbatim>\<open>"Check execution failed"\<close>,
  evidence \<^verbatim>\<open>None\<close>, the text \<^verbatim>\<open>str(e)\<close> (so not \<^verbatim>\<open>None\<close>) as error, the
  empty string as remediation and the clock's text (so not \<^verbatim>\<open>None\<close>) as timestamp;
  and \<^verbatim>\<open>run()\<close> does return one when \<open>e\<close> is an instance of
  \<^verbatim>\<open>Exception\<close>.
\<close>

theorem run_fault_result_fields:
  "(isinstance_Exception e \<longrightarrow> (\<exists>r. run self (Raises e) now = Inr r)) \<and>
   (\<forall>r. run self (Raises e) now = Inr r \<longrightarrow>
      map_of r ''status'' = Some (PStr ''ERROR'') \<and>
      map_of r ''finding'' = Some (PStr ''Check execution failed'') \<and>
      map_of r ''evidence'' = Some PNone \<and>
      map_of r ''error'' = Some (PStr (exc_str e)) \<and>
      map_of r ''error'' \<noteq> Some PNone \<and>
      map_of r ''remediation'' = Some (PStr '''') \<and>
      map_of r ''timestamp'' = Some (PStr now) \<and>
      map_of r ''timestamp'' \<noteq> Some PNone)"
  by (auto simp: run_Raises run_except_def split: if_splits)

theorem run_fault_result_fields_witness:
  "isinstance_Exception (Exn TimeoutExpired ''Command timed out'') \<and>
   (\<exists>r. run FirewallCheck_init (Raises (Exn TimeoutExpired ''Command timed out''))
          ''2026-01-05T10:00:00'' = Inr r \<and>
      map_of r ''status'' = Some (PStr ''ERROR'') \<and>
      map_of r ''finding'' = Some (PStr ''Check execution failed'') \<and>
      map_of r ''evidence'' = Some PNone \<and>
      map_of r ''error'' = Some (PStr ''Command timed out'') \<and>
      map_of r ''remediation'' = Some (PStr '''') \<and>
      map_of r ''timestamp'' = Some (PStr ''2026-01-05T10:00:00''))"
  using run_fault_result_fields
    [of "Exn TimeoutExpired ''Command timed out''" FirewallCheck_init
        "''2026-01-05T10:00:00''"]
  by auto

lemma map_of_run_result:
  "map_of (run_result self d sv now) ''id'' = Some (PStr (id_attr self))"
  "map_of (run_result self d sv now) ''title'' = Some (PStr (title self))"
  "map_of (run_result self d sv now) ''description'' = Some (PStr (description self))"
  "map_of (run_result self d sv now) ''category'' = Some (PStr (category self))"
  "map_of (run_result self d sv now) ''severity'' = Some (PStr (Severity_value (severity self)))"
  "map_of (run_result self d sv now) ''compliance_frameworks''
     = Some (PList (map PStr (compliance_frameworks self)))"
  "map_of (run_result self d sv now) ''status'' = Some (PStr sv)"
  "map_of (run_result self d sv now) ''finding''
     = Some (dict_get d ''finding'' (PStr ''No finding recorded''))"
  "map_of (run_result self d sv now) ''evidence'' = Some (dict_get d ''evidence'' PNone)"
  "map_of (run_result self d sv now) ''risk'' = Some (dict_get d ''risk'' (PStr ''''))"
  "map_of (run_result self d sv now) ''remediation''
     = Some (dict_get d ''remediation'' (PStr (remediation self)))"
  "map_of (run_result self d sv now) ''timestamp'' = Some (PStr now)"
  "map_of (run_result self d sv now) ''error'' = Some PNone"
  by (simp_all add: run_result_def)

lemma map_of_run_except:
  "map_of (run_except self e now) ''status'' = Some (PStr ''ERROR'')"
  "map_of (run_except self e now) ''error'' = Some (PStr (exc_str e))"
  "map_of (run_except self e now) ''compliance_frameworks'' = None"
  by (simp_all add: run_except_def)



lemma isinstance_Exception_no_attribute [simp]: "isinstance_Exception (no_attribute v a)"
  by (simp add: no_attribute_def)

lemma exc_cls_returned_fault [simp]: "exc_cls (returned_fault v) = AttributeError"
  by (cases v) (simp_all add: no_attribute_def)




lemma CheckStatus_value_eq_PASS [simp]: "CheckStatus_value s = ''PASS'' \<longleftrightarrow> s = PASS"
  by (cases s) simp_all

lemma CheckStatus_value_eq_ERROR [simp]: "CheckStatus_value s = ''ERROR'' \<longleftrightarrow> s = ERROR"
  by (cases s) simp_all





lemma FirewallCheck_init_simps:
  "id_attr FirewallCheck_init = ''CIS-2.1.1''"
  "title FirewallCheck_init = ''Ensure Firewall Is Enabled''"
  "description FirewallCheck_init =
     ''The macOS Application Firewall provides protection against network-based attacks''"
  "category FirewallCheck_init = ''Network Security''"
  "severity FirewallCheck_init = HIGH"
  "compliance_frameworks FirewallCheck_init =
     [''CIS_macOS_14'', ''NIST_CSF_PR.AC-5'', ''ISO27001_A.13.1.1'']"
  by (simp_all add: FirewallCheck_init_def)






lemma SoftwareUpdatesCheck_init_simps:
  "id_attr SoftwareUpdatesCheck_init = ''CIS-1.1''"
  "title SoftwareUpdatesCheck_init = ''Ensure All Apple-Provided Software Is Current''"
  "description SoftwareUpdatesCheck_init =
     ''Software updates often contain security patches for vulnerabilities''"
  "category SoftwareUpdatesCheck_init = ''System Updates''"
  "severity SoftwareUpdatesCheck_init = HIGH"
  "compliance_frameworks SoftwareUpdatesCheck_init =
     [''CIS_macOS_14'', ''NIST_CSF_PR.IP-12'', ''ISO27001_A.12.6.1'']"
  by (simp_all add: SoftwareUpdatesCheck_init_def)










section \<open>Properties of the statistics\<close>

lemma result_status_Some:
  "result_status r = Some s \<Longrightarrow> map_of r ''status'' = Some (PStr (CheckStatus_value s))"
  by (auto simp: result_status_def split: option.splits pyval.splits if_splits)

lemma sum_status_counts:
  "list_all (\<lambda>r. result_status r \<noteq> None) rs \<Longrightarrow>
     sum_status (CheckStatus_value s) rs acc = Inr (acc + count_of s rs)"
proof (induction rs arbitrary: acc)
  case Nil
  then show ?case by (simp add: count_of_def)
next
  case (Cons r rs)
  then obtain s' where s': "result_status r = Some s'" by auto
  then have m: "map_of r ''status'' = Some (PStr (CheckStatus_value s'))"
    by (rule result_status_Some)
  have eq: "(CheckStatus_value s' = CheckStatus_value s) = (s' = s)"
    by (cases s; cases s') simp_all
  from Cons show ?case
    by (simp add: dict_item_def m eq s' count_of_def)
qed

lemma length_by_status:
  "list_all (\<lambda>r. result_status r \<noteq> None) rs \<Longrightarrow>
     length rs = count_of PASS rs + count_of FAIL rs + count_of WARNING rs
       + count_of ERROR rs + count_of NOT_APPLICABLE rs"
proof (induction rs)
  case Nil
  then show ?case by (simp add: count_of_def)
next
  case (Cons r rs)
  then obtain s where "result_status r = Some s" by auto
  with Cons show ?case by (cases s) (simp_all add: count_of_def)
qed

lemma count_of_zero: "count_of s rs = 0 \<longleftrightarrow> \<not> list_ex (\<lambda>r. result_status r = Some s) rs"
  by (auto simp: count_of_def list_ex_iff filter_empty_conv)

lemma calculate_stats_counts:
  assumes "list_all (\<lambda>r. result_status r \<noteq> None) results"
  shows "\<exists>sc. calculate_stats results =
     Inr \<lparr>total = length results, passed = count_of PASS results,
          failed = count_of FAIL results, warnings = count_of WARNING results,
          compliance_score = sc\<rparr>"
  using sum_status_counts [OF assms, of PASS 0] sum_status_counts [OF assms, of FAIL 0]
    sum_status_counts [OF assms, of WARNING 0]
  by (simp add: calculate_stats_def Let_def)

text \<open>
  Claim C5. For a list of results whose status is one of the five values of
  \<^verbatim>\<open>CheckStatus\<close>, \<^verbatim>\<open>calculate_stats\<close> returns statistics in which
  \<^verbatim>\<open>total\<close> is the length of the list and \<^verbatim>\<open>passed\<close>, \<^verbatim>\<open>failed\<close> and
  \<^verbatim>\<open>warnings\<close> count the results with status \<^verbatim>\<open>PASS\<close>, \<^verbatim>\<open>FAIL\<close> and
  \<^verbatim>\<open>WARNING\<close>; the results with status \<^verbatim>\<open>ERROR\<close> or \<^verbatim>\<open>NOT_APPLICABLE\<close>
  count toward \<^verbatim>\<open>total\<close> only. So the three counts sum to at most \<^verbatim>\<open>total\<close>,
  and to \<^verbatim>\<open>total\<close> exactly when no result has status \<^verbatim>\<open>ERROR\<close> or
  \<^verbatim>\<open>NOT_APPLICABLE\<close>.
\<close>

theorem stats_counts:
  assumes "list_all (\<lambda>r. result_status r \<noteq> None) results"
  shows "\<exists>st. calculate_stats results = Inr st \<and>
     total st = length results \<and>
     passed st = count_of PASS results \<and>
     failed st = count_of FAIL results \<and>
     warnings st = count_of WARNING results \<and>
     total st = passed st + failed st + warnings st
                  + count_of ERROR results + count_of NOT_APPLICABLE results \<and>
     passed st + failed st + warnings st \<le> total st \<and>
     (passed st + failed st + warnings st = total st \<longleftrightarrow>
        \<not> list_ex (\<lambda>r. result_status r = Some ERROR \<or> result_status r = Some NOT_APPLICABLE)
             results)"
proof -
  from calculate_stats_counts [OF assms] obtain sc where
    st: "calculate_stats results =
     Inr \<lparr>total = length results, passed = count_of PASS results,
          failed = count_of FAIL results, warnings = count_of WARNING results,
          compliance_score = sc\<rparr>" by blast
  have len: "length results = count_of PASS results + count_of FAIL results
      + count_of WARNING results + count_of ERROR results + count_of NOT_APPLICABLE results"
    using assms by (rule length_by_status)
  have ex: "list_ex (\<lambda>r. result_status r = Some ERROR \<or> result_status r = Some NOT_APPLICABLE)
             results \<longleftrightarrow> count_of ERROR results \<noteq> 0 \<or> count_of NOT_APPLICABLE results \<noteq> 0"
    by (auto simp: count_of_zero list_ex_iff)
  show ?thesis
    using len by (simp add: st ex)
qed

lemma floorlog_2_1: "floorlog 2 (Suc 0) = 1"
  by (simp add: compute_floorlog)

lemma ilog2_1: "ilog2 1 = 0"
  by (simp add: ilog2_def floorlog_2_1)

lemma round_half_even_of_int: "round_half_even (of_int n) = n"
  by (simp add: round_half_even_def)

lemma round_binary64_1: "round_binary64 1 = 1"
proof -
  have "(1::rat) / pow2 (- 52) = of_int (2 ^ 52)" by (simp add: pow2_def)
  then have "round_half_even (1 / pow2 (- 52)) = 2 ^ 52"
    by (simp only: round_half_even_of_int)
  then show ?thesis by (simp add: round_binary64_def ilog2_1 pow2_def)
qed

lemma round_binary64_0: "round_binary64 0 = 0"
  by (simp add: round_binary64_def)

lemma floorlog_2_100: "floorlog 2 100 = 7"
  by (simp add: compute_floorlog)

lemma ilog2_100: "ilog2 100 = 6"
proof -
  have "nat \<lfloor>100::rat\<rfloor> = 100" by simp
  then show ?thesis by (simp add: ilog2_def floorlog_2_100)
qed

lemma round_binary64_100: "round_binary64 100 = 100"
proof -
  have "(100::rat) / pow2 (- 46) = of_int (100 * 2 ^ 46)" by (simp add: pow2_def)
  then have "round_half_even (100 / pow2 (- 46)) = 100 * 2 ^ 46"
    by (simp only: round_half_even_of_int)
  then show ?thesis by (simp add: round_binary64_def ilog2_100 pow2_def)
qed

lemma py_round1_100: "py_round1 (PyFloat 100) = PyFloat 100"
proof -
  have "round_half_even (100 * 10) = 1000"
    using round_half_even_of_int [of 1000] by simp
  then show ?thesis by (simp add: round_binary64_100)
qed

lemma py_round1_0: "py_round1 (PyFloat 0) = PyFloat 0"
proof -
  have "round_half_even 0 = 0"
    using round_half_even_of_int [of 0] by simp
  then show ?thesis by (simp add: round_binary64_0)
qed

lemma int_truediv_same: "0 < n \<Longrightarrow> int_truediv n n = 1"
  by (simp add: int_truediv_def round_binary64_1)

lemma int_truediv_zero: "int_truediv 0 n = 0"
  by (simp add: int_truediv_def round_binary64_0)

lemma score_third: "py_round1 (PyFloat (float_mul (int_truediv 1 3) 100)) = PyFloat (2343279181116211 / 70368744177664)"
  by code_simp

lemma calculate_stats_eq:
  assumes "list_all (\<lambda>r. result_status r \<noteq> None) results"
  shows "calculate_stats results =
     Inr \<lparr>total = length results, passed = count_of PASS results,
          failed = count_of FAIL results, warnings = count_of WARNING results,
          compliance_score =
            py_round1 (if length results > 0
                       then PyFloat (float_mul (int_truediv (count_of PASS results)
                                                  (length results)) 100)
                       else PyInt 0)\<rparr>"
  using sum_status_counts [OF assms, of PASS 0] sum_status_counts [OF assms, of FAIL 0]
    sum_status_counts [OF assms, of WARNING 0]
  by (simp add: calculate_stats_def Let_def)

lemma count_of_all:
  "list_all (\<lambda>r. result_status r = Some s) rs \<Longrightarrow> count_of s rs = length rs"
  by (simp add: count_of_def list_all_iff)

lemma count_of_none:
  "list_all (\<lambda>r. result_status r = Some s') rs \<Longrightarrow> s \<noteq> s' \<Longrightarrow> count_of s rs = 0"
  by (auto simp: count_of_def list_all_iff filter_empty_conv)

lemma float_mul_1_100: "float_mul 1 100 = 100"
  by (simp add: float_mul_def round_binary64_100)

lemma float_mul_0_100: "float_mul 0 100 = 0"
  by (simp add: float_mul_def round_binary64_0)

text \<open>
  Claim C4. For a list of results whose status is one of the five values of
  \<^verbatim>\<open>CheckStatus\<close>, the score \<^verbatim>\<open>calculate_stats\<close> returns is the integer 0
  when the list is empty, with no division; otherwise it is
  \<^verbatim>\<open>round(passed / total * 100, 1)\<close> in binary64 arithmetic, which is
  \<^verbatim>\<open>100.0\<close> when every result has status \<^verbatim>\<open>PASS\<close> and \<^verbatim>\<open>0.0\<close> when every
  result has status \<^verbatim>\<open>FAIL\<close>.
\<close>

theorem compliance_score_cases:
  assumes "list_all (\<lambda>r. result_status r \<noteq> None) results"
  shows "\<exists>st. calculate_stats results = Inr st \<and>
     total st = length results \<and>
     passed st = count_of PASS results \<and>
     (total st = 0 \<longrightarrow> compliance_score st = PyInt 0) \<and>
     (0 < total st \<longrightarrow>
        compliance_score st =
          py_round1 (PyFloat (float_mul (int_truediv (passed st) (total st)) 100))) \<and>
     (results \<noteq> [] \<and> list_all (\<lambda>r. result_status r = Some PASS) results \<longrightarrow>
        compliance_score st = PyFloat 100) \<and>
     (results \<noteq> [] \<and> list_all (\<lambda>r. result_status r = Some FAIL) results \<longrightarrow>
        compliance_score st = PyFloat 0)"
proof -
  let ?sc = "py_round1 (if length results > 0
                       then PyFloat (float_mul (int_truediv (count_of PASS results)
                                                  (length results)) 100)
                       else PyInt 0)"
  have pass: "?sc = PyFloat 100"
    if "results \<noteq> []" "list_all (\<lambda>r. result_status r = Some PASS) results"
    using that by (simp add: count_of_all int_truediv_same float_mul_1_100 py_round1_100
        del: py_round1.simps)
  have fail: "?sc = PyFloat 0"
    if "results \<noteq> []" "list_all (\<lambda>r. result_status r = Some FAIL) results"
    using that count_of_none [of FAIL results PASS]
    by (simp add: int_truediv_zero float_mul_0_100 py_round1_0 del: py_round1.simps)
  show ?thesis
    using pass fail by (simp add: calculate_stats_eq [OF assms])
qed

lemma three_results_status:
  "list_all (\<lambda>r. result_status r \<noteq> None) three_results"
  "count_of PASS three_results = 1"
  "count_of FAIL three_results = 1"
  "count_of WARNING three_results = 0"
  "count_of ERROR three_results = 1"
  "count_of NOT_APPLICABLE three_results = 0"
  "length three_results = 3"
  by (simp_all add: three_results_def result_status_def count_of_def)

theorem compliance_score_cases_witness:
  "list_all (\<lambda>r. result_status r \<noteq> None) three_results \<and>
   (\<exists>st. calculate_stats three_results = Inr st \<and> total st = 3 \<and> passed st = 1 \<and>
      compliance_score st = PyFloat (2343279181116211 / 70368744177664)) \<and>
   list_all (\<lambda>r. result_status r = Some PASS)
     [[(''status'', PStr ''PASS'')], [(''status'', PStr ''PASS'')]] \<and>
   (\<exists>st. calculate_stats [[(''status'', PStr ''PASS'')], [(''status'', PStr ''PASS'')]] = Inr st \<and>
      compliance_score st = PyFloat 100) \<and>
   list_all (\<lambda>r. result_status r = Some FAIL) [[(''status'', PStr ''FAIL'')]] \<and>
   (\<exists>st. calculate_stats [[(''status'', PStr ''FAIL'')]] = Inr st \<and>
      compliance_score st = PyFloat 0) \<and>
   (\<exists>st. calculate_stats [] = Inr st \<and> total st = 0 \<and> compliance_score st = PyInt 0)"
proof -
  have a: "list_all (\<lambda>r. result_status r = Some PASS)
     [[(''status'', PStr ''PASS'')], [(''status'', PStr ''PASS'')]]"
    by (simp add: result_status_def)
  have b: "list_all (\<lambda>r. result_status r = Some FAIL) [[(''status'', PStr ''FAIL'')]]"
    by (simp add: result_status_def)
  have a': "list_all (\<lambda>r. result_status r \<noteq> None)
     [[(''status'', PStr ''PASS'')], [(''status'', PStr ''PASS'')]]"
    by (simp add: result_status_def)
  have b': "list_all (\<lambda>r. result_status r \<noteq> None) [[(''status'', PStr ''FAIL'')]]"
    by (simp add: result_status_def)
  have c': "list_all (\<lambda>r. result_status r \<noteq> None) []" by simp
  from compliance_score_cases [OF three_results_status(1)]
  have 1: "\<exists>st. calculate_stats three_results = Inr st \<and> total st = 3 \<and> passed st = 1 \<and>
      compliance_score st = PyFloat (2343279181116211 / 70368744177664)"
    by (auto simp: three_results_status score_third [unfolded One_nat_def]
        simp del: py_round1.simps)
  from compliance_score_cases [OF a'] a
  have 2: "\<exists>st. calculate_stats [[(''status'', PStr ''PASS'')], [(''status'', PStr ''PASS'')]] = Inr st \<and>
      compliance_score st = PyFloat 100"
    by auto
  from compliance_score_cases [OF b'] b
  have 3: "\<exists>st. calculate_stats [[(''status'', PStr ''FAIL'')]] = Inr st \<and>
      compliance_score st = PyFloat 0"
    by auto
  from compliance_score_cases [OF c']
  have 4: "\<exists>st. calculate_stats [] = Inr st \<and> total st = 0 \<and> compliance_score st = PyInt 0"
    by auto
  from 1 2 3 4 a b three_results_status(1) show ?thesis by blast
qed

theorem stats_counts_witness:
  "list_all (\<lambda>r. result_status r \<noteq> None) three_results \<and>
   (\<exists>st. calculate_stats three_results = Inr st \<and> total st = 3 \<and> passed st = 1 \<and>
      failed st = 1 \<and> warnings st = 0 \<and> passed st + failed st + warnings st < total st \<and>
      list_ex (\<lambda>r. result_status r = Some ERROR \<or> result_status r = Some NOT_APPLICABLE)
        three_results)"
  using stats_counts [OF three_results_status(1)]
  by (auto simp: three_results_status) (simp add: three_results_def result_status_def)

section \<open>Properties of the scan loop\<close>

lemma run_checks_loop_handled:
  assumes "list_all (\<lambda>(chk, outcome, now). handled outcome) checks"
  shows "\<exists>rs. run_checks_loop checks acc = Inr (acc @ rs) \<and>
           map Inr rs = map (\<lambda>(chk, outcome, now). run chk outcome now) checks"
  using assms
proof (induction checks arbitrary: acc)
  case Nil
  then show ?case by simp
next
  case (Cons c checks)
  obtain chk outcome now where c: "c = (chk, outcome, now)" by (cases c) auto
  with Cons.prems have "handled outcome"
    and rest: "list_all (\<lambda>(chk, outcome, now). handled outcome) checks"
    by simp_all
  then obtain r where r: "run chk outcome now = Inr r"
    using run_handled by blast
  from Cons.IH [OF rest, of "acc @ [r]"] obtain rs where
    "run_checks_loop checks (acc @ [r]) = Inr ((acc @ [r]) @ rs)"
    "map Inr rs = map (\<lambda>(chk, outcome, now). run chk outcome now) checks"
    by blast
  then have "run_checks_loop (c # checks) acc = Inr (acc @ (r # rs)) \<and>
      map Inr (r # rs) = map (\<lambda>(chk, outcome, now). run chk outcome now) (c # checks)"
    by (simp add: c r)
  then show ?case by blast
qed

text \<open>
  Claim C3, as amended. For a list of probes in which every \<^verbatim>\<open>check()\<close> returns or
  raises an instance of \<^verbatim>\<open>Exception\<close>, the loop returns a list of the same length
  whose element at each position is the result of \<^verbatim>\<open>run()\<close> on the probe at that
  position: no probe is skipped, whatever the status of the results before it.
\<close>

theorem run_all_checks_one_result_each:
  assumes "list_all (\<lambda>(chk, outcome, now). handled outcome) checks"
  shows "\<exists>results. run_all_checks checks = Inr results \<and>
           length results = length checks \<and>
           map Inr results = map (\<lambda>(chk, outcome, now). run chk outcome now) checks"
proof -
  from run_checks_loop_handled [OF assms, of "[]"] obtain rs where
    rs: "run_checks_loop checks [] = Inr rs"
      "map Inr rs = map (\<lambda>(chk, outcome, now). run chk outcome now) checks"
    by auto
  from rs(2) have "length rs = length checks"
    by (metis length_map)
  with rs show ?thesis by (simp add: run_all_checks_def)
qed

lemma scan_calls_simps:
  "list_all (\<lambda>(chk, outcome, now). handled outcome) scan_calls"
  "length scan_calls = 3"
  by (simp_all add: scan_calls_def)

theorem run_all_checks_one_result_each_witness:
  "list_all (\<lambda>(chk, outcome, now). handled outcome) scan_calls \<and>
   (\<exists>results. run_all_checks scan_calls = Inr results \<and> length results = 3 \<and>
      map (\<lambda>r. map_of r ''id'') results =
        [Some (PStr ''CIS-1.1''), Some (PStr ''CIS-2.1.1''), Some (PStr ''CIS-4.2'')] \<and>
      map (\<lambda>r. map_of r ''status'') results =
        [Some (PStr ''PASS''), Some (PStr ''FAIL''), Some (PStr ''ERROR'')])"
proof -
  from run_all_checks_one_result_each [OF scan_calls_simps(1)] obtain results where
    r: "run_all_checks scan_calls = Inr results" "length results = length scan_calls"
      "map Inr results = map (\<lambda>(chk, outcome, now). run chk outcome now) scan_calls"
    by blast
  have "map (\<lambda>(chk, outcome, now). run chk outcome now) scan_calls =
      map Inr
        [run_result SoftwareUpdatesCheck_init [(''status'', PStatus PASS), (''risk'', PStr ''None'')]
           ''PASS'' ''2026-01-05T10:00:00'',
         run_result FirewallCheck_init
           [(''status'', PStatus FAIL), (''finding'', PStr ''Firewall is DISABLED'')]
           ''FAIL'' ''2026-01-05T10:00:01'',
         run_except SSHConfigCheck_init (Exn RuntimeError ''boom'') ''2026-01-05T10:00:02'']"
    by (simp add: scan_calls_def run_Raises run_Returns_dict [where s = PASS]
        run_Returns_dict [where s = FAIL] outcome_status_def)
  with r(3) have "results =
        [run_result SoftwareUpdatesCheck_init [(''status'', PStatus PASS), (''risk'', PStr ''None'')]
           ''PASS'' ''2026-01-05T10:00:00'',
         run_result FirewallCheck_init
           [(''status'', PStatus FAIL), (''finding'', PStr ''Firewall is DISABLED'')]
           ''FAIL'' ''2026-01-05T10:00:01'',
         run_except SSHConfigCheck_init (Exn RuntimeError ''boom'') ''2026-01-05T10:00:02'']"
    by (auto simp: map_eq_Cons_conv)
  with r(1,2) show ?thesis
    by (simp add: scan_calls_simps map_of_run_result map_of_run_except
        SoftwareUpdatesCheck_init_simps FirewallCheck_init_simps SSHConfigCheck_init_def
        run_except_def)
qed

text \<open>
  Claim C3 as stated fails: when the \<^verbatim>\<open>check()\<close> of the first of two probes raises
  \<^verbatim>\<open>KeyboardInterrupt\<close>, the exception leaves \<^verbatim>\<open>run()\<close> and the loop; no list
  is returned and the second probe is not run.
\<close>

theorem run_all_checks_raises_KeyboardInterrupt:
  "run_all_checks
     [(FirewallCheck_init, Raises (Exn KeyboardInterrupt []), ''2026-01-05T10:00:00''),
      (SSHConfigCheck_init,
       Returns (PDict [(''status'', PStatus PASS), (''risk'', PStr ''None'')]),
       ''2026-01-05T10:00:01'')]
   = Inl (Exn KeyboardInterrupt [])"
  by (simp add: run_all_checks_def run_Raises)

text \<open>
  A scan in which some \<^verbatim>\<open>check()\<close> raises an exception outside
  \<^verbatim>\<open>Exception\<close> returns no list: the exception leaves the loop.
\<close>

lemma run_checks_loop_unhandled:
  "\<not> list_all (\<lambda>(chk, outcome, now). handled outcome) checks \<Longrightarrow>
     \<exists>e. \<not> isinstance_Exception e \<and> run_checks_loop checks acc = Inl e"
proof (induction checks arbitrary: acc)
  case Nil
  then show ?case by simp
next
  case (Cons c checks)
  obtain chk outcome now where c: "c = (chk, outcome, now)" by (cases c) auto
  show ?case
  proof (cases "handled outcome")
    case True
    then obtain r where "run chk outcome now = Inr r" using run_handled by blast
    moreover from True Cons.prems c
    have "\<not> list_all (\<lambda>(chk, outcome, now). handled outcome) checks" by simp
    ultimately show ?thesis using Cons.IH c by simp
  next
    case False
    then obtain e where "outcome = Raises e" "\<not> isinstance_Exception e"
      by (cases outcome) auto
    then show ?thesis using c by (auto simp: run_Raises)
  qed
qed

section \<open>Properties of the grouping\<close>

lemma set_first_seen [simp]: "set (first_seen xs) = set xs"
  by (induction xs) auto

lemma distinct_first_seen [simp]: "distinct (first_seen xs)"
  by (induction xs) auto

lemma first_seen_snoc:
  "first_seen (xs @ [x]) = (if x \<in> set xs then first_seen xs else first_seen xs @ [x])"
  by (induction xs) auto

lemma key_eq_PStr [simp]: "key_eq (PStr c) k = (PStr c = k)" "key_eq k (PStr c) = (k = PStr c)"
  by (cases k; simp)+

lemma group_loop_append:
  "group_loop (rs @ rs') categories =
     (case group_loop rs categories of Inl e \<Rightarrow> Inl e | Inr cs \<Rightarrow> group_loop rs' cs)"
  by (induction rs arbitrary: categories) (auto split: sum.splits)

lemma key_in_PStr:
  "list_all (\<lambda>(k, g). \<exists>c. k = PStr c) categories \<Longrightarrow>
     key_in k categories = (k \<in> fst ` set categories)"
  by (induction categories) (auto simp: key_in_def)

lemma append_to_distinct:
  "list_all (\<lambda>(k, g). \<exists>c. k = PStr c) categories \<Longrightarrow> distinct (map fst categories) \<Longrightarrow>
     append_to k r categories = map (\<lambda>(k', g). (k', if k' = k then g @ [r] else g)) categories"
proof (induction categories)
  case Nil
  then show ?case by simp
next
  case (Cons a categories)
  obtain k' g where a: "a = (k', g)" by (cases a)
  with Cons.prems obtain c where k': "k' = PStr c" by auto
  show ?case
  proof (cases "k' = k")
    case True
    with Cons.prems a have "\<forall>(k'', g') \<in> set categories. k'' \<noteq> k" by force
    then have "map (\<lambda>(k', g). (k', if k' = k then g @ [r] else g)) categories = categories"
      by (induction categories) auto
    from k' True have "key_eq k' k" by simp
    with True a k' \<open>map (\<lambda>(k', g). (k', if k' = k then g @ [r] else g)) categories = categories\<close>
    show ?thesis by simp
  next
    case False
    with Cons a k' show ?thesis by simp
  qed
qed

lemma dict_get_category:
  "result_category r = Some c \<Longrightarrow> map_of r ''category'' = Some (PStr c)"
  by (auto simp: result_category_def split: option.splits pyval.splits)

lemma grouped_keys_PStr:
  assumes "list_all (\<lambda>r. result_category r \<noteq> None) rs"
  shows "list_all (\<lambda>(k, g). \<exists>c. k = PStr c) (grouped rs)"
proof -
  have "\<exists>c. dict_get r ''category'' PNone = PStr c" if "r \<in> set rs" for r
  proof -
    from that assms obtain c where "result_category r = Some c"
      by (auto simp: list_all_iff)
    then show ?thesis by (auto dest: dict_get_category simp: dict_get_def)
  qed
  then show ?thesis
    by (auto simp: grouped_def category_keys_def list_all_iff)
qed

lemma grouped_snoc_eq:
  assumes m: "map_of r ''category'' = Some k0"
    and none: "k0 \<notin> (\<lambda>r. dict_get r ''category'' PNone) ` set rs \<Longrightarrow>
                 filter (in_category k0) rs = []"
  shows "grouped (rs @ [r]) =
     map (\<lambda>(k', g). (k', if k' = k0 then g @ [r] else g))
       (if k0 \<in> (\<lambda>r. dict_get r ''category'' PNone) ` set rs then grouped rs
        else grouped rs @ [(k0, [])])"
proof -
  have kr: "dict_get r ''category'' PNone = k0" using m by (simp add: dict_get_def)
  have ic: "in_category k r = (k = k0)" for k using m by (auto simp: in_category_def)
  show ?thesis
  proof (cases "k0 \<in> (\<lambda>r. dict_get r ''category'' PNone) ` set rs")
    case True
    then show ?thesis
      by (simp add: grouped_def category_keys_def first_seen_snoc kr ic comp_def)
  next
    case False
    with none have "filter (in_category k0) rs = []" by simp
    with False show ?thesis
      by (simp add: grouped_def category_keys_def first_seen_snoc kr ic comp_def)
  qed
qed

lemma grouped_snoc:
  assumes rs: "list_all (\<lambda>r. result_category r \<noteq> None) rs"
    and r: "result_category r = Some c"
  shows "group_loop [r] (grouped rs) = Inr (grouped (rs @ [r]))"
proof -
  let ?key = "\<lambda>r. dict_get r ''category'' PNone"
  from r have m: "map_of r ''category'' = Some (PStr c)" by (rule dict_get_category)
  have keys: "fst ` set (grouped rs) = ?key ` set rs"
    by (auto simp: grouped_def category_keys_def image_iff)
  have dist: "distinct (map fst (grouped rs))"
    by (simp add: grouped_def category_keys_def comp_def)
  have none: "filter (in_category (PStr c)) rs = []" if "PStr c \<notin> ?key ` set rs"
    using that by (force simp: filter_empty_conv in_category_def dict_get_def image_iff)
  have pstr: "list_all (\<lambda>(k, g). \<exists>c. k = PStr c) (grouped rs)"
    using rs by (rule grouped_keys_PStr)
  have ki: "key_in (PStr c) (grouped rs) = (PStr c \<in> ?key ` set rs)"
    by (simp add: key_in_PStr [OF pstr] keys)
  have g: "grouped (rs @ [r]) =
     map (\<lambda>(k', g). (k', if k' = PStr c then g @ [r] else g))
       (if PStr c \<in> ?key ` set rs then grouped rs else grouped rs @ [(PStr c, [])])"
    using m none by (rule grouped_snoc_eq)
  show ?thesis
  proof (cases "PStr c \<in> ?key ` set rs")
    case True
    have "append_to (PStr c) r (grouped rs) = grouped (rs @ [r])"
      using True by (simp add: append_to_distinct [OF pstr dist] g)
    with True show ?thesis by (simp add: dict_item_def m ki)
  next
    case False
    have pres: "list_all (\<lambda>(k, g). \<exists>c. k = PStr c) (grouped rs @ [(PStr c, [])])"
      using pstr by simp
    have dist': "distinct (map fst (grouped rs @ [(PStr c, [])]))"
      using dist keys False by auto
    have "append_to (PStr c) r (grouped rs @ [(PStr c, [])]) = grouped (rs @ [r])"
      using False by (simp add: append_to_distinct [OF pres dist'] g)
    with False show ?thesis by (simp add: dict_item_def m ki)
  qed
qed

lemma group_loop_grouped:
  "list_all (\<lambda>r. result_category r \<noteq> None) rs \<Longrightarrow> group_loop rs [] = Inr (grouped rs)"
proof (induction rs rule: rev_induct)
  case Nil
  then show ?case by (simp add: grouped_def category_keys_def)
next
  case (snoc r rs)
  then obtain c where "result_category r = Some c" by auto
  with snoc show ?case
    by (simp add: group_loop_append grouped_snoc del: group_loop.simps)
qed

lemma mset_filter_disjoint:
  "(\<And>x. x \<in> set xs \<Longrightarrow> \<not> (P x \<and> Q x)) \<Longrightarrow>
     mset (filter P xs) + mset (filter Q xs) = mset (filter (\<lambda>x. P x \<or> Q x) xs)"
  by (induction xs) auto

lemma in_category_unique: "in_category k r \<Longrightarrow> in_category k' r \<Longrightarrow> k = k'"
  by (simp add: in_category_def)

lemma mset_concat_groups:
  "distinct ks \<Longrightarrow>
     mset (concat (map (\<lambda>k. filter (in_category k) rs) ks)) =
       mset (filter (\<lambda>r. list_ex (\<lambda>k. in_category k r) ks) rs)"
proof (induction ks)
  case Nil
  then show ?case by simp
next
  case (Cons k ks)
  have "\<not> (in_category k x \<and> list_ex (\<lambda>k. in_category k x) ks)" for x
    using Cons.prems by (auto simp: list_ex_iff dest: in_category_unique)
  then have "mset (filter (in_category k) rs) + mset (filter (\<lambda>r. list_ex (\<lambda>k. in_category k r) ks) rs)
      = mset (filter (\<lambda>r. in_category k r \<or> list_ex (\<lambda>k. in_category k r) ks) rs)"
    by (intro mset_filter_disjoint) simp
  with Cons show ?case by simp
qed

lemma mset_concat_grouped:
  assumes "list_all (\<lambda>r. result_category r \<noteq> None) rs"
  shows "mset (concat (map snd (grouped rs))) = mset rs"
proof -
  have "list_ex (\<lambda>k. in_category k r) (category_keys rs)" if "r \<in> set rs" for r
  proof -
    from that assms obtain c where "result_category r = Some c"
      by (auto simp: list_all_iff)
    then have "map_of r ''category'' = Some (PStr c)" by (rule dict_get_category)
    then have "in_category (dict_get r ''category'' PNone) r"
      by (simp add: in_category_def dict_get_def)
    with that show ?thesis
      by (auto simp: list_ex_iff category_keys_def)
  qed
  then have "filter (\<lambda>r. list_ex (\<lambda>k. in_category k r) (category_keys rs)) rs = rs"
    by (simp add: filter_id_conv)
  moreover have "distinct (category_keys rs)" by (simp add: category_keys_def)
  ultimately show ?thesis
    using mset_concat_groups [of "category_keys rs" rs]
    by (simp add: grouped_def comp_def)
qed

text \<open>
  Claim C8. For a list of results whose category is a string, the loop returns groups
  such that (a) the concatenation of the groups, in their order, is a permutation of
  the list; (b) every result of a group has the group's key as category; (c) the keys
  are the categories of the list in the order of their first occurrence, and each group
  is the sublist of the results of its category, in their original order.
\<close>

theorem group_by_category_partition:
  assumes "list_all (\<lambda>r. result_category r \<noteq> None) results"
  shows "\<exists>gs. group_by_category results = Inr gs \<and>
     mset (concat (map snd gs)) = mset results \<and>
     list_all (\<lambda>(k, g). list_all (in_category k) g) gs \<and>
     map fst gs = first_seen (map (\<lambda>r. dict_get r ''category'' PNone) results) \<and>
     list_all (\<lambda>(k, g). g = filter (in_category k) results) gs"
proof -
  have "group_by_category results = Inr (grouped results)"
    using assms by (simp add: group_by_category_def group_loop_grouped)
  moreover have "mset (concat (map snd (grouped results))) = mset results"
    using assms by (rule mset_concat_grouped)
  moreover have "list_all (\<lambda>(k, g). list_all (in_category k) g) (grouped results)"
    by (simp add: grouped_def list_all_iff)
  moreover have "map fst (grouped results)
      = first_seen (map (\<lambda>r. dict_get r ''category'' PNone) results)"
    by (simp add: grouped_def category_keys_def comp_def)
  moreover have "list_all (\<lambda>(k, g). g = filter (in_category k) results) (grouped results)"
    by (simp add: grouped_def list_all_iff)
  ultimately show ?thesis by blast
qed

lemma three_results_category: "list_all (\<lambda>r. result_category r \<noteq> None) three_results"
  by (simp add: three_results_def result_category_def)

theorem group_by_category_partition_witness:
  "list_all (\<lambda>r. result_category r \<noteq> None) three_results \<and>
   (\<exists>gs. group_by_category three_results = Inr gs \<and>
      mset (concat (map snd gs)) = mset three_results \<and>
      gs = [(PStr ''System Updates'',
               [[(''category'', PStr ''System Updates''), (''status'', PStr ''PASS'')]]),
            (PStr ''Network Security'',
               [[(''category'', PStr ''Network Security''), (''status'', PStr ''FAIL'')],
                [(''category'', PStr ''Network Security''), (''status'', PStr ''ERROR'')]])])"
proof -
  from group_by_category_partition [OF three_results_category] obtain gs where
    gs: "group_by_category three_results = Inr gs"
      "mset (concat (map snd gs)) = mset three_results"
    by blast
  have "group_by_category three_results =
     Inr [(PStr ''System Updates'',
               [[(''category'', PStr ''System Updates''), (''status'', PStr ''PASS'')]]),
            (PStr ''Network Security'',
               [[(''category'', PStr ''Network Security''), (''status'', PStr ''FAIL'')],
                [(''category'', PStr ''Network Security''), (''status'', PStr ''ERROR'')]])]"
    by (simp add: group_by_category_def three_results_def dict_item_def key_in_def)
  with gs three_results_category show ?thesis by simp
qed

section \<open>The results of a scan are well formed\<close>

lemma result_status_run_result:
  "result_status (run_result self d (CheckStatus_value s) now) = Some s"
  by (cases s) (simp_all add: result_status_def map_of_run_result)

lemma result_status_run_except: "result_status (run_except self e now) = Some ERROR"
  by (simp add: result_status_def map_of_run_except)

lemma result_category_run_result:
  "result_category (run_result self d sv now) = Some (category self)"
  by (simp add: result_category_def map_of_run_result)

lemma result_category_run_except:
  "result_category (run_except self e now) = Some (category self)"
  by (simp add: result_category_def run_except_def)

text \<open>
  Every dictionary \<^verbatim>\<open>run()\<close> returns has one of the five status values and the
  category of its probe, so the lists the scan loop returns are lists of well-formed
  results.
\<close>

lemma run_well_formed:
  assumes "run self outcome now = Inr r"
  shows "result_status r \<noteq> None \<and> result_category r = Some (category self)"
  using run_Inr_cases [OF assms]
  by (auto simp: result_status_run_result result_status_run_except
      result_category_run_result result_category_run_except)

lemma run_checks_loop_well_formed:
  assumes "run_checks_loop checks acc = Inr results"
    and "list_all (\<lambda>r. result_status r \<noteq> None \<and> result_category r \<noteq> None) acc"
  shows "list_all (\<lambda>r. result_status r \<noteq> None \<and> result_category r \<noteq> None) results"
  using assms
proof (induction checks arbitrary: acc)
  case Nil
  then show ?case by simp
next
  case (Cons c checks)
  obtain chk outcome now where c: "c = (chk, outcome, now)" by (cases c) auto
  with Cons.prems(1) obtain r where r: "run chk outcome now = Inr r"
    and loop: "run_checks_loop checks (acc @ [r]) = Inr results"
    by (auto split: sum.splits)
  from run_well_formed [OF r] Cons.prems(2)
  have "list_all (\<lambda>r. result_status r \<noteq> None \<and> result_category r \<noteq> None) (acc @ [r])"
    by simp
  with Cons.IH loop show ?case by blast
qed

lemma run_all_checks_well_formed:
  "run_all_checks checks = Inr results \<Longrightarrow>
     list_all (\<lambda>r. result_status r \<noteq> None \<and> result_category r \<noteq> None) results"
  using run_checks_loop_well_formed [of checks "[]" results]
  by (simp add: run_all_checks_def)

end
